theory Spec2Isabelle
  imports Main "HOL-Library.Multiset"
begin

section \<open>Python values, dictionaries and exceptions\<close>

text \<open>
  The aggregation module (\<^verbatim>\<open>validator/aggregation.py\<close>) works on Python objects.
  Exceptions are values of type \<open>error\<close>; a computation that may raise returns
  \<open>error + 'a\<close>, with \<open>Inl\<close> for the exception.
\<close>

text \<open>
  \<open>OtherError name\<close> is an exception of any other class, as a property getter or a
  \<^verbatim>\<open>__str__\<close> method of a user class may raise.
\<close>

datatype error = KeyError | AttributeError | TypeError | ValueError | OtherError string

text \<open>
  The values found in a \<^verbatim>\<open>severity\<close> field or attribute: \<^verbatim>\<open>None\<close>, booleans,
  integers and strings, and \<open>POther outcome\<close> for any other object, identified with the
  outcome of its \<^verbatim>\<open>__str__\<close>: the text it returns or the exception it raises. Floats
  are left out.
\<close>

datatype pyval = PNone | PBool bool | PInt int | PStr string | POther "error + string"

text \<open>
  The limit on the number of digits of an integer converted to a string
  (\<^verbatim>\<open>sys.int_info.default_max_str_digits\<close>, CPython 3.11 and later).
\<close>

definition INT_MAX_STR_DIGITS :: nat where
  "INT_MAX_STR_DIGITS = 4300"

fun digits_of_nat :: "nat \<Rightarrow> string" where
  "digits_of_nat n =
     (if n < 10 then [''0123456789'' ! n]
      else digits_of_nat (n div 10) @ [''0123456789'' ! (n mod 10)])"

declare digits_of_nat.simps [simp del]

text \<open>
  The builtin \<^verbatim>\<open>str(v)\<close>. It raises \<^verbatim>\<open>ValueError\<close> on an integer of more digits
  than the limit, and whatever the \<^verbatim>\<open>__str__\<close> of another object raises.
\<close>

fun py_str :: "pyval \<Rightarrow> error + string" where
  "py_str PNone = Inr ''None''"
| "py_str (PBool b) = Inr (if b then ''True'' else ''False'')"
| "py_str (PInt i) =
     (let digits = digits_of_nat (nat \<bar>i\<bar>)
      in if length digits > INT_MAX_STR_DIGITS then Inl ValueError
         else Inr (if i < 0 then ''-'' @ digits else digits))"
| "py_str (PStr s) = Inr s"
| "py_str (POther outcome) = outcome"

text \<open>
  A \<^verbatim>\<open>dict\<close> with string keys is an association list in insertion order, without
  duplicate keys. \<open>map_of d k\<close> is the lookup of key \<open>k\<close>.
\<close>

type_synonym 'v dict = "(string \<times> 'v) list"

definition dict_keys :: "'v dict \<Rightarrow> string list" where
  "dict_keys d = map fst d"

text \<open>\<^verbatim>\<open>k in d\<close>\<close>

definition dict_contains :: "'v dict \<Rightarrow> string \<Rightarrow> bool" where
  "dict_contains d k = (case map_of d k of None \<Rightarrow> False | Some v \<Rightarrow> True)"

text \<open>\<^verbatim>\<open>d[k]\<close>, which raises \<^verbatim>\<open>KeyError\<close> on a missing key.\<close>

definition dict_getitem :: "'v dict \<Rightarrow> string \<Rightarrow> error + 'v" where
  "dict_getitem d k = (case map_of d k of None \<Rightarrow> Inl KeyError | Some v \<Rightarrow> Inr v)"

text \<open>\<^verbatim>\<open>d.get(k, default)\<close>\<close>

definition dict_get :: "'v dict \<Rightarrow> string \<Rightarrow> 'v \<Rightarrow> 'v" where
  "dict_get d k dflt = (case map_of d k of None \<Rightarrow> dflt | Some v \<Rightarrow> v)"

text \<open>
  \<^verbatim>\<open>d[k] = v\<close>: an existing key keeps its position, a new key goes to the end.
\<close>

primrec dict_setitem :: "string \<Rightarrow> 'v \<Rightarrow> 'v dict \<Rightarrow> 'v dict" where
  "dict_setitem k v [] = [(k, v)]"
| "dict_setitem k v (p # ps) =
     (if fst p = k then (k, v) # ps else p # dict_setitem k v ps)"

text \<open>\<^verbatim>\<open>d.setdefault(k, v)\<close>, for its effect on \<open>d\<close>.\<close>

definition dict_setdefault :: "string \<Rightarrow> 'v \<Rightarrow> 'v dict \<Rightarrow> 'v dict" where
  "dict_setdefault k v d = (if dict_contains d k then d else dict_setitem k v d)"

text \<open>
  \<^verbatim>\<open>{**d, **other}\<close>: the items of \<open>other\<close> are stored into a copy of \<open>d\<close>, in order.
\<close>

definition dict_merge :: "'v dict \<Rightarrow> 'v dict \<Rightarrow> 'v dict" where
  "dict_merge d other = fold (\<lambda>(k, v). dict_setitem k v) other d"

text \<open>
  \<^verbatim>\<open>c[k] += n\<close> on a \<^verbatim>\<open>Counter\<close> or a \<^verbatim>\<open>defaultdict(int)\<close>: a missing
  key reads as 0, and the sum is stored under \<open>k\<close>.
\<close>

definition dict_iadd :: "string \<Rightarrow> int \<Rightarrow> int dict \<Rightarrow> int dict" where
  "dict_iadd k n d = dict_setitem k (dict_get d k 0 + n) d"

text \<open>
  A result item is an arbitrary object. The module observes three things of it:
  whether it is a \<^verbatim>\<open>Mapping\<close> (and then its items), its attributes, and whether it
  is a \<^verbatim>\<open>str\<close> (and then its text). An object may have any combination of them: a
  \<^verbatim>\<open>dict\<close> has the first only, a \<^verbatim>\<open>str\<close> the last only, a number or
  \<^verbatim>\<open>None\<close> has none, an instance of a user class may have several. An attribute
  is given by the outcome of reading it: its value, or the exception that a property
  getter raises.
\<close>

record result_item =
  mapping_items :: "pyval dict option"
  attributes :: "(error + pyval) dict"
  str_text :: "string option"

definition isinstance_Mapping :: "result_item \<Rightarrow> bool" where
  "isinstance_Mapping r = (case mapping_items r of None \<Rightarrow> False | Some d \<Rightarrow> True)"

text \<open>\<^verbatim>\<open>k in result\<close> and \<^verbatim>\<open>result[k]\<close>\<close>

definition item_contains :: "result_item \<Rightarrow> string \<Rightarrow> bool" where
  "item_contains r k = (case mapping_items r of None \<Rightarrow> False | Some d \<Rightarrow> dict_contains d k)"

definition item_getitem :: "result_item \<Rightarrow> string \<Rightarrow> error + pyval" where
  "item_getitem r k = (case mapping_items r of None \<Rightarrow> Inl TypeError | Some d \<Rightarrow> dict_getitem d k)"

text \<open>
  \<^verbatim>\<open>getattr(result, name)\<close>, which raises \<^verbatim>\<open>AttributeError\<close> when there is no
  such attribute, and what the getter raises when the attribute is a property.
\<close>

definition getattr :: "result_item \<Rightarrow> string \<Rightarrow> error + pyval" where
  "getattr r name =
     (case map_of (attributes r) name of None \<Rightarrow> Inl AttributeError | Some outcome \<Rightarrow> outcome)"

text \<open>
  \<^verbatim>\<open>hasattr(result, name)\<close> reads the attribute and catches \<^verbatim>\<open>AttributeError\<close>
  only: any other exception of the getter propagates.
\<close>

definition hasattr :: "result_item \<Rightarrow> string \<Rightarrow> error + bool" where
  "hasattr r name =
     (case getattr r name of
        Inr v \<Rightarrow> Inr True
      | Inl e \<Rightarrow> if e = AttributeError then Inr False else Inl e)"

text \<open>The shapes of item that callers build.\<close>

definition dict_item :: "pyval dict \<Rightarrow> result_item" where
  "dict_item d = \<lparr>mapping_items = Some d, attributes = [], str_text = None\<rparr>"

definition object_item :: "pyval dict \<Rightarrow> result_item" where
  "object_item attrs =
     \<lparr>mapping_items = None, attributes = map (\<lambda>(name, v). (name, Inr v)) attrs, str_text = None\<rparr>"

definition str_item :: "string \<Rightarrow> result_item" where
  "str_item s = \<lparr>mapping_items = None, attributes = [], str_text = Some s\<rparr>"

definition plain_item :: "result_item" where
  "plain_item = \<lparr>mapping_items = None, attributes = [], str_text = None\<rparr>"

section \<open>The module's constants\<close>

definition DEFAULT_SEVERITY_WEIGHTS :: "int dict" where
  "DEFAULT_SEVERITY_WEIGHTS =
     [(''critical'', 50), (''high'', 25), (''medium'', 10), (''low'', 5), (''info'', 0)]"

definition CRITICAL_SEVERITY :: "string" where
  "CRITICAL_SEVERITY = ''critical''"

definition UNKNOWN_SEVERITY_WEIGHT :: "int" where
  "UNKNOWN_SEVERITY_WEIGHT = 10"

definition RATING_THRESHOLDS :: "int dict" where
  "RATING_THRESHOLDS = [(''clean'', 90), (''needs_attention'', 60)]"

definition MAX_SCORE :: "int" where
  "MAX_SCORE = 100"

section \<open>Severity extraction\<close>

text \<open>
  \<^verbatim>\<open>_extract_severity(result)\<close>: the three tests in the order of the source. Each
  lookup and each call of \<^verbatim>\<open>str\<close> and \<^verbatim>\<open>hasattr\<close> has its own exception, and the
  function catches none.
\<close>

definition extract_severity :: "result_item \<Rightarrow> error + string" where
  "extract_severity result =
     (if isinstance_Mapping result \<and> item_contains result ''severity'' then
        (case item_getitem result ''severity'' of
           Inl e \<Rightarrow> Inl e
         | Inr v \<Rightarrow> py_str v)
      else
        (case hasattr result ''severity'' of
           Inl e \<Rightarrow> Inl e
         | Inr has \<Rightarrow>
             if has then
               (case getattr result ''severity'' of
                  Inl e \<Rightarrow> Inl e
                | Inr v \<Rightarrow> py_str v)
             else
               (case str_text result of
                  Some s \<Rightarrow> Inr s
                | None \<Rightarrow> Inr ''unknown'')))"

section \<open>Rating\<close>

text \<open>\<^verbatim>\<open>_rating_from_score(score, counts)\<close>\<close>

definition rating_from_score :: "int \<Rightarrow> int dict \<Rightarrow> error + string" where
  "rating_from_score score counts =
     (case dict_getitem RATING_THRESHOLDS ''clean'' of
        Inl e \<Rightarrow> Inl e
      | Inr clean_min \<Rightarrow>
          if score \<ge> clean_min \<and> dict_get counts CRITICAL_SEVERITY 0 = 0 then Inr ''clean''
          else
            (case dict_getitem RATING_THRESHOLDS ''needs_attention'' of
               Inl e \<Rightarrow> Inl e
             | Inr attention_min \<Rightarrow>
                 if score \<ge> attention_min then Inr ''needs_attention'' else Inr ''unsafe''))"

section \<open>Aggregation\<close>

record penalties_t =
  total_penalty :: int
  by_severity :: "int dict"
  weights :: "int dict"
  unknown_weight :: int

record verdict =
  hygiene_score :: int
  rating :: string
  severity_counts :: "int dict"
  penalties :: penalties_t
  max_score :: int

text \<open>The three variables that the loop over the results updates.\<close>

record loop_state =
  st_severity_counts :: "int dict"
  st_penalty_by_severity :: "int dict"
  st_total_penalty :: int

text \<open>\<^verbatim>\<open>weights.get(severity, UNKNOWN_SEVERITY_WEIGHT)\<close>\<close>

definition weight_of :: "int dict \<Rightarrow> string \<Rightarrow> int" where
  "weight_of wts severity = dict_get wts severity UNKNOWN_SEVERITY_WEIGHT"

definition loop_body :: "int dict \<Rightarrow> result_item \<Rightarrow> loop_state \<Rightarrow> error + loop_state" where
  "loop_body wts result st =
     (case extract_severity result of
        Inl e \<Rightarrow> Inl e
      | Inr severity \<Rightarrow>
          (let weight = weight_of wts severity
           in Inr \<lparr>st_severity_counts = dict_iadd severity 1 (st_severity_counts st),
                   st_penalty_by_severity = dict_iadd severity weight (st_penalty_by_severity st),
                   st_total_penalty = st_total_penalty st + weight\<rparr>))"

fun results_loop :: "int dict \<Rightarrow> result_item list \<Rightarrow> loop_state \<Rightarrow> error + loop_state" where
  "results_loop wts [] st = Inr st"
| "results_loop wts (result # rest) st =
     (case loop_body wts result st of
        Inl e \<Rightarrow> Inl e
      | Inr st' \<Rightarrow> results_loop wts rest st')"

text \<open>
  \<^verbatim>\<open>{**DEFAULT_SEVERITY_WEIGHTS, **(severity_weights or {})}\<close>: \<^verbatim>\<open>None\<close> and the
  empty mapping are both falsy.
\<close>

definition effective_weights :: "int dict option \<Rightarrow> int dict" where
  "effective_weights severity_weights =
     dict_merge DEFAULT_SEVERITY_WEIGHTS
       (case severity_weights of
          None \<Rightarrow> []
        | Some overrides \<Rightarrow> if overrides = [] then [] else overrides)"

text \<open>
  The loop \<^verbatim>\<open>for severity in weights: severity_counts_output.setdefault(severity, 0)\<close>.
\<close>

definition fill_counts :: "int dict \<Rightarrow> int dict \<Rightarrow> int dict" where
  "fill_counts wts counts = fold (\<lambda>severity out. dict_setdefault severity 0 out) (dict_keys wts) counts"

definition aggregate_validator_results ::
    "result_item list \<Rightarrow> int dict option \<Rightarrow> error + verdict" where
  "aggregate_validator_results results severity_weights =
     (let wts = effective_weights severity_weights;
          init = \<lparr>st_severity_counts = [],
                  st_penalty_by_severity = map (\<lambda>severity. (severity, 0)) (dict_keys wts),
                  st_total_penalty = 0\<rparr>
      in case results_loop wts results init of
           Inl e \<Rightarrow> Inl e
         | Inr st \<Rightarrow>
             (let score = max 0 (MAX_SCORE - st_total_penalty st)
              in case rating_from_score score (st_severity_counts st) of
                   Inl e \<Rightarrow> Inl e
                 | Inr r \<Rightarrow>
                     Inr \<lparr>hygiene_score = score,
                          rating = r,
                          severity_counts = fill_counts wts (st_severity_counts st),
                          penalties = \<lparr>total_penalty = st_total_penalty st,
                                       by_severity = st_penalty_by_severity st,
                                       weights = wts,
                                       unknown_weight = UNKNOWN_SEVERITY_WEIGHT\<rparr>,
                          max_score = MAX_SCORE\<rparr>))"

section \<open>Notions used to state the properties\<close>

text \<open>The label that extraction returns for an item, when it returns one.\<close>

definition label_of :: "result_item \<Rightarrow> string" where
  "label_of r = (case extract_severity r of Inr s \<Rightarrow> s | Inl e \<Rightarrow> [])"

text \<open>
  The counter and the per-severity subtotals that the loop leaves, as functions of the
  list of extracted labels.
\<close>

definition counts_after :: "string list \<Rightarrow> int dict" where
  "counts_after labels = fold (\<lambda>l. dict_iadd l 1) labels []"

definition subtotals_after :: "int dict \<Rightarrow> string list \<Rightarrow> int dict" where
  "subtotals_after wts labels =
     fold (\<lambda>l. dict_iadd l (weight_of wts l)) labels (map (\<lambda>severity. (severity, 0)) (dict_keys wts))"

text \<open>
  The specification's rating rule, first match wins: \<^verbatim>\<open>clean\<close> iff the score is at
  least 90 and there is no critical finding; otherwise \<^verbatim>\<open>needs_attention\<close> iff the
  score is at least 60; otherwise \<^verbatim>\<open>unsafe\<close>.
\<close>

definition rating_rule :: "int \<Rightarrow> nat \<Rightarrow> string" where
  "rating_rule score criticals =
     (if score \<ge> 90 \<and> criticals = 0 then ''clean''
      else if score \<ge> 60 then ''needs_attention''
      else ''unsafe'')"

text \<open>The order of the ratings, best first: clean, needs_attention, unsafe.\<close>

definition rating_rank :: "string \<Rightarrow> nat" where
  "rating_rank r = (if r = ''clean'' then 2 else if r = ''needs_attention'' then 1 else 0)"

text \<open>
  The specification's data model: a severity weight table maps each label to a
  non-negative integer penalty, and so does an override table when one is given.
\<close>

definition nonneg_weights :: "int dict \<Rightarrow> bool" where
  "nonneg_weights wts = list_all (\<lambda>(severity, w). 0 \<le> w) wts"

definition valid_override :: "int dict option \<Rightarrow> bool" where
  "valid_override severity_weights =
     (case severity_weights of None \<Rightarrow> True | Some overrides \<Rightarrow> nonneg_weights overrides)"

text \<open>
  Python's \<^verbatim>\<open>==\<close> on two dictionaries: the same number of items, and every item of
  the first is found in the second with an equal value. The order of insertion does not
  count. Two verdicts are equal when their fields are.
\<close>

definition dict_eq :: "int dict \<Rightarrow> int dict \<Rightarrow> bool" where
  "dict_eq a b = (length a = length b \<and> list_all (\<lambda>(k, v). map_of b k = Some v) a)"

definition verdict_eq :: "verdict \<Rightarrow> verdict \<Rightarrow> bool" where
  "verdict_eq v v' =
     (hygiene_score v = hygiene_score v'
      \<and> rating v = rating v'
      \<and> dict_eq (severity_counts v) (severity_counts v')
      \<and> total_penalty (penalties v) = total_penalty (penalties v')
      \<and> dict_eq (by_severity (penalties v)) (by_severity (penalties v'))
      \<and> dict_eq (weights (penalties v)) (weights (penalties v'))
      \<and> unknown_weight (penalties v) = unknown_weight (penalties v')
      \<and> max_score v = max_score v')"

section \<open>Dictionaries: lookups after updates\<close>

lemma map_of_dict_setitem: "map_of (dict_setitem k v d) = (map_of d)(k \<mapsto> v)"
  by (induction d) (auto simp: fun_eq_iff)

lemma keys_dict_setitem: "set (dict_keys (dict_setitem k v d)) = insert k (set (dict_keys d))"
  by (induction d) (auto simp: dict_keys_def)

lemma distinct_dict_setitem:
  "distinct (dict_keys d) \<Longrightarrow> distinct (dict_keys (dict_setitem k v d))"
proof (induction d)
  case Nil
  show ?case by (simp add: dict_keys_def)
next
  case (Cons p ps)
  have "fst p \<notin> set (dict_keys ps)" "distinct (dict_keys ps)"
    using Cons.prems by (simp_all add: dict_keys_def)
  moreover have "set (dict_keys (dict_setitem k v ps)) = insert k (set (dict_keys ps))"
    by (rule keys_dict_setitem)
  ultimately show ?case
    using Cons.IH by (auto simp: dict_keys_def)
qed

lemma map_of_dict_iadd:
  "map_of (dict_iadd k n d) = (map_of d)(k \<mapsto> dict_get d k 0 + n)"
  by (simp add: dict_iadd_def map_of_dict_setitem)

lemma keys_dict_iadd: "set (dict_keys (dict_iadd k n d)) = insert k (set (dict_keys d))"
  by (simp add: dict_iadd_def keys_dict_setitem)

lemma distinct_dict_iadd: "distinct (dict_keys d) \<Longrightarrow> distinct (dict_keys (dict_iadd k n d))"
  by (simp add: dict_iadd_def distinct_dict_setitem)

lemma dict_get_dict_iadd:
  "dict_get (dict_iadd k n d) l dflt = (if l = k then dict_get d k 0 + n else dict_get d l dflt)"
  by (simp add: dict_get_def map_of_dict_iadd)

text \<open>The effect of a run of \<^verbatim>\<open>d[l] += f(l)\<close> over a list of labels.\<close>

lemma dict_get_fold_iadd:
  "dict_get (fold (\<lambda>l. dict_iadd l (f l)) labels d) k 0 =
     dict_get d k 0 + int (count_list labels k) * f k"
  by (induction labels arbitrary: d) (auto simp: dict_get_dict_iadd algebra_simps)

lemma keys_fold_iadd:
  "set (dict_keys (fold (\<lambda>l. dict_iadd l (f l)) labels d)) = set (dict_keys d) \<union> set labels"
  by (induction labels arbitrary: d) (auto simp: keys_dict_iadd)

lemma distinct_fold_iadd:
  "distinct (dict_keys d) \<Longrightarrow> distinct (dict_keys (fold (\<lambda>l. dict_iadd l (f l)) labels d))"
  by (induction labels arbitrary: d) (auto simp: distinct_dict_iadd)

lemma map_of_eq_None_keys: "map_of d k = None \<longleftrightarrow> k \<notin> set (dict_keys d)"
  by (simp add: dict_keys_def map_of_eq_None_iff)

lemma map_of_fold_iadd:
  "map_of (fold (\<lambda>l. dict_iadd l (f l)) labels d) k =
     (if k \<in> set (dict_keys d) \<union> set labels
      then Some (dict_get d k 0 + int (count_list labels k) * f k) else None)"
proof (cases "k \<in> set (dict_keys d) \<union> set labels")
  case True
  then have "k \<in> set (dict_keys (fold (\<lambda>l. dict_iadd l (f l)) labels d))"
    by (simp add: keys_fold_iadd)
  then obtain v where v: "map_of (fold (\<lambda>l. dict_iadd l (f l)) labels d) k = Some v"
    using map_of_eq_None_keys by fastforce
  then have "dict_get (fold (\<lambda>l. dict_iadd l (f l)) labels d) k 0 = v"
    by (simp add: dict_get_def)
  then show ?thesis using v True by (simp add: dict_get_fold_iadd)
next
  case False
  then have "k \<notin> set (dict_keys (fold (\<lambda>l. dict_iadd l (f l)) labels d))"
    by (simp add: keys_fold_iadd)
  then show ?thesis using False by (simp add: map_of_eq_None_keys)
qed

lemma dict_merge_Cons:
  "dict_merge d ((k, v) # other) = dict_merge (dict_setitem k v d) other"
  by (simp add: dict_merge_def)

lemma map_of_dict_merge:
  "distinct (dict_keys other) \<Longrightarrow>
     map_of (dict_merge d other) k =
       (case map_of other k of Some v \<Rightarrow> Some v | None \<Rightarrow> map_of d k)"
proof (induction other arbitrary: d)
  case Nil
  show ?case by (simp add: dict_merge_def)
next
  case (Cons p other)
  obtain a b where p: "p = (a, b)" by (cases p)
  have fresh: "map_of other a = None" and dist: "distinct (dict_keys other)"
    using Cons.prems by (simp_all add: p map_of_eq_None_keys dict_keys_def)
  show ?case
    using Cons.IH [OF dist, of "dict_setitem a b d"] fresh
    by (auto simp: p dict_merge_Cons map_of_dict_setitem split: option.splits)
qed

lemma keys_dict_merge:
  "set (dict_keys (dict_merge d other)) = set (dict_keys d) \<union> set (dict_keys other)"
proof (induction other arbitrary: d)
  case Nil
  show ?case by (simp add: dict_merge_def dict_keys_def)
next
  case (Cons p other)
  obtain a b where p: "p = (a, b)" by (cases p)
  have "set (dict_keys (p # other)) = insert a (set (dict_keys other))"
    by (simp add: p dict_keys_def)
  then show ?case
    using Cons.IH [of "dict_setitem a b d"]
    by (simp add: p dict_merge_Cons keys_dict_setitem)
qed

lemma distinct_dict_merge:
  "distinct (dict_keys d) \<Longrightarrow> distinct (dict_keys (dict_merge d other))"
proof (induction other arbitrary: d)
  case Nil
  then show ?case by (simp add: dict_merge_def)
next
  case (Cons p other)
  obtain a b where p: "p = (a, b)" by (cases p)
  show ?case
    using Cons.IH [of "dict_setitem a b d"] Cons.prems
    by (simp add: p dict_merge_Cons distinct_dict_setitem)
qed

lemma map_of_dict_setdefault:
  "map_of (dict_setdefault k v d) l =
     (case map_of d l of Some n \<Rightarrow> Some n | None \<Rightarrow> if l = k then Some v else None)"
  by (auto simp: dict_setdefault_def dict_contains_def map_of_dict_setitem split: option.splits)

lemma keys_dict_setdefault:
  "set (dict_keys (dict_setdefault k v d)) = insert k (set (dict_keys d))"
proof (cases "map_of d k")
  case None
  then show ?thesis by (simp add: dict_setdefault_def dict_contains_def keys_dict_setitem)
next
  case (Some n)
  then have "k \<in> set (dict_keys d)"
    using map_of_eq_None_keys [of d k] by simp
  then show ?thesis using Some by (auto simp: dict_setdefault_def dict_contains_def)
qed

lemma distinct_dict_setdefault:
  "distinct (dict_keys d) \<Longrightarrow> distinct (dict_keys (dict_setdefault k v d))"
  by (simp add: dict_setdefault_def distinct_dict_setitem)

lemma map_of_fill_counts:
  "map_of (fill_counts wts counts) l =
     (case map_of counts l of
        Some n \<Rightarrow> Some n
      | None \<Rightarrow> if l \<in> set (dict_keys wts) then Some 0 else None)"
proof -
  have "map_of (fold (\<lambda>severity out. dict_setdefault severity 0 out) ks counts) l =
          (case map_of counts l of
             Some n \<Rightarrow> Some n
           | None \<Rightarrow> if l \<in> set ks then Some 0 else None)" for ks
    by (induction ks arbitrary: counts) (auto simp: map_of_dict_setdefault split: option.splits)
  then show ?thesis by (simp add: fill_counts_def)
qed

lemma keys_fill_counts:
  "set (dict_keys (fill_counts wts counts)) = set (dict_keys counts) \<union> set (dict_keys wts)"
proof -
  have "set (dict_keys (fold (\<lambda>severity out. dict_setdefault severity 0 out) ks counts)) =
          set (dict_keys counts) \<union> set ks" for ks
    by (induction ks arbitrary: counts) (auto simp: keys_dict_setdefault)
  then show ?thesis by (simp add: fill_counts_def)
qed

lemma distinct_fill_counts:
  "distinct (dict_keys counts) \<Longrightarrow> distinct (dict_keys (fill_counts wts counts))"
proof -
  have "distinct (dict_keys counts) \<Longrightarrow>
          distinct (dict_keys (fold (\<lambda>severity out. dict_setdefault severity 0 out) ks counts))" for ks
    by (induction ks arbitrary: counts) (auto simp: distinct_dict_setdefault)
  then show "distinct (dict_keys counts) \<Longrightarrow> ?thesis" by (simp add: fill_counts_def)
qed

section \<open>The conversion to a string\<close>

lemma length_digits_pow10: "length (digits_of_nat (10 ^ n)) = Suc n"
proof (induction n)
  case 0
  show ?case by (simp add: digits_of_nat.simps)
next
  case (Suc n)
  have "\<not> (10::nat) * 10 ^ n < 10"
    by simp
  then have "digits_of_nat (10 * 10 ^ n) =
               digits_of_nat (10 ^ n) @ [''0123456789'' ! ((10 * 10 ^ n) mod 10)]"
    using digits_of_nat.simps [of "10 * 10 ^ n"] by simp
  then show ?case
    using Suc.IH by simp
qed

lemma py_str_too_long: "py_str (PInt (10 ^ INT_MAX_STR_DIGITS)) = Inl ValueError"
  by (simp add: nat_power_eq length_digits_pow10 Let_def)

section \<open>The loop on items whose extraction returns\<close>

lemma label_of_Inr: "extract_severity r = Inr l \<Longrightarrow> label_of r = l"
  by (simp add: label_of_def)

lemma labels_unique:
  "map extract_severity rs = map Inr labels \<Longrightarrow> labels = map label_of rs"
proof (induction rs arbitrary: labels)
  case Nil
  then show ?case by simp
next
  case (Cons r rs)
  then obtain l ls where "labels = l # ls" "extract_severity r = Inr l"
    "map extract_severity rs = map Inr ls"
    by (cases labels) auto
  then show ?case
    using Cons.IH [of ls] by (simp add: label_of_Inr)
qed

lemma extracted_iff:
  "map extract_severity rs = map Inr (map label_of rs) \<longleftrightarrow>
     (\<forall>r \<in> set rs. extract_severity r = Inr (label_of r))"
  by (induction rs) auto

lemma extracted_label_of:
  "map extract_severity rs = map Inr labels \<Longrightarrow>
     map extract_severity rs = map Inr (map label_of rs)"
  using labels_unique by blast

lemma results_loop_run:
  "map extract_severity rs = map Inr (map label_of rs) \<Longrightarrow>
   results_loop wts rs st =
     Inr \<lparr>st_severity_counts =
            fold (\<lambda>l. dict_iadd l 1) (map label_of rs) (st_severity_counts st),
          st_penalty_by_severity =
            fold (\<lambda>l. dict_iadd l (weight_of wts l)) (map label_of rs)
              (st_penalty_by_severity st),
          st_total_penalty =
            st_total_penalty st + sum_list (map (weight_of wts) (map label_of rs))\<rparr>"
  by (induction rs arbitrary: st) (simp_all add: loop_body_def Let_def)

lemma results_loop_raises:
  "map extract_severity before = map Inr (map label_of before) \<Longrightarrow>
   extract_severity item = Inl e \<Longrightarrow>
   results_loop wts (before @ item # after) st = Inl e"
  by (induction before arbitrary: st) (simp_all add: loop_body_def Let_def)

lemma rating_from_score_Inr:
  "rating_from_score score counts =
     Inr (if score \<ge> 90 \<and> dict_get counts ''critical'' 0 = 0 then ''clean''
          else if score \<ge> 60 then ''needs_attention'' else ''unsafe'')"
  by (simp add: rating_from_score_def RATING_THRESHOLDS_def CRITICAL_SEVERITY_def dict_getitem_def)

lemma distinct_effective_weights: "distinct (dict_keys (effective_weights ow))"
  unfolding effective_weights_def
  by (rule distinct_dict_merge) (simp add: DEFAULT_SEVERITY_WEIGHTS_def dict_keys_def)

lemma dict_get_counts_after: "dict_get (counts_after labels) k 0 = int (count_list labels k)"
  using dict_get_fold_iadd [of "\<lambda>l. 1" labels "[]" k]
  by (simp add: counts_after_def dict_get_def)

lemma aggregate_run:
  assumes "map extract_severity results = map Inr (map label_of results)"
  shows "aggregate_validator_results results ow =
     Inr \<lparr>hygiene_score =
            max 0 (100 - sum_list (map (weight_of (effective_weights ow)) (map label_of results))),
          rating =
            rating_rule
              (max 0 (100 - sum_list (map (weight_of (effective_weights ow)) (map label_of results))))
              (count_list (map label_of results) ''critical''),
          severity_counts =
            fill_counts (effective_weights ow) (counts_after (map label_of results)),
          penalties =
            \<lparr>total_penalty =
               sum_list (map (weight_of (effective_weights ow)) (map label_of results)),
             by_severity = subtotals_after (effective_weights ow) (map label_of results),
             weights = effective_weights ow,
             unknown_weight = 10\<rparr>,
          max_score = 100\<rparr>"
proof -
  define wts where "wts = effective_weights ow"
  define labels where "labels = map label_of results"
  define total where "total = sum_list (map (weight_of wts) labels)"
  have loop: "results_loop wts results
                \<lparr>st_severity_counts = [],
                 st_penalty_by_severity = map (\<lambda>severity. (severity, 0)) (dict_keys wts),
                 st_total_penalty = 0\<rparr> =
              Inr \<lparr>st_severity_counts = counts_after labels,
                   st_penalty_by_severity = subtotals_after wts labels,
                   st_total_penalty = total\<rparr>"
    by (simp only: results_loop_run [OF assms] counts_after_def subtotals_after_def labels_def
        total_def loop_state.simps) simp
  have rate: "rating_from_score (max 0 (100 - total)) (counts_after labels) =
                Inr (rating_rule (max 0 (100 - total)) (count_list labels ''critical''))"
    by (simp only: rating_from_score_Inr dict_get_counts_after rating_rule_def) simp
  have "aggregate_validator_results results ow =
          Inr \<lparr>hygiene_score = max 0 (100 - total),
               rating = rating_rule (max 0 (100 - total)) (count_list labels ''critical''),
               severity_counts = fill_counts wts (counts_after labels),
               penalties = \<lparr>total_penalty = total, by_severity = subtotals_after wts labels,
                            weights = wts, unknown_weight = 10\<rparr>,
               max_score = 100\<rparr>"
    unfolding aggregate_validator_results_def Let_def wts_def [symmetric] loop
    by (simp add: rate MAX_SCORE_def UNKNOWN_SEVERITY_WEIGHT_def)
  then show ?thesis
    by (simp only: wts_def labels_def total_def)
qed

lemma aggregate_raises:
  assumes "map extract_severity before = map Inr (map label_of before)"
    and "extract_severity item = Inl e"
  shows "aggregate_validator_results (before @ item # after) ow = Inl e"
  unfolding aggregate_validator_results_def Let_def
  by (simp only: results_loop_raises [OF assms]) simp

section \<open>Labels, weights and ratings of a run\<close>

lemma weight_of_lookup:
  "weight_of wts l = (case map_of wts l of Some w \<Rightarrow> w | None \<Rightarrow> 10)"
  by (simp add: weight_of_def dict_get_def UNKNOWN_SEVERITY_WEIGHT_def split: option.splits)

lemma map_of_counts_after:
  "map_of (counts_after labels) l =
     (if l \<in> set labels then Some (int (count_list labels l)) else None)"
  using map_of_fold_iadd [of "\<lambda>l. 1" labels "[]" l]
  by (simp add: counts_after_def dict_keys_def dict_get_def)

lemma keys_counts_after: "set (dict_keys (counts_after labels)) = set labels"
  using keys_fold_iadd [of "\<lambda>l. 1" labels "[]"]
  by (simp add: counts_after_def dict_keys_def)

lemma distinct_counts_after: "distinct (dict_keys (counts_after labels))"
  using distinct_fold_iadd [of "[]" "\<lambda>l. 1" labels]
  by (simp add: counts_after_def dict_keys_def)

lemma effective_weights_None: "effective_weights None = DEFAULT_SEVERITY_WEIGHTS"
  by (simp add: effective_weights_def dict_merge_def)

lemma effective_weights_Some:
  "effective_weights (Some overrides) = dict_merge DEFAULT_SEVERITY_WEIGHTS overrides"
  by (simp add: effective_weights_def)

lemma map_of_effective_weights:
  "distinct (dict_keys overrides) \<Longrightarrow>
     map_of (effective_weights (Some overrides)) k =
       (case map_of overrides k of
          Some w \<Rightarrow> Some w
        | None \<Rightarrow> map_of DEFAULT_SEVERITY_WEIGHTS k)"
  by (simp only: effective_weights_Some map_of_dict_merge)

lemma weight_of_absent: "map_of wts l = None \<Longrightarrow> weight_of wts l = 10"
  by (simp add: weight_of_lookup)

lemma weight_of_nonneg: "nonneg_weights wts \<Longrightarrow> 0 \<le> weight_of wts l"
proof (cases "map_of wts l")
  case None
  then show ?thesis by (simp add: weight_of_lookup)
next
  case (Some w)
  assume "nonneg_weights wts"
  moreover have "(l, w) \<in> set wts"
    using Some by (rule map_of_SomeD)
  ultimately have "0 \<le> w"
    by (auto simp: nonneg_weights_def list_all_iff)
  then show ?thesis using Some by (simp add: weight_of_lookup)
qed

lemma total_nonneg: "nonneg_weights wts \<Longrightarrow> 0 \<le> sum_list (map (weight_of wts) labels)"
  by (rule sum_list_nonneg) (auto simp: weight_of_nonneg)

lemma dict_eqI:
  assumes "distinct (dict_keys a)" "distinct (dict_keys b)" "map_of a = map_of b"
  shows "dict_eq a b"
proof -
  have da: "distinct (map fst a)" and db: "distinct (map fst b)"
    using assms(1,2) by (simp_all add: dict_keys_def)
  have sets: "set a = set b"
    using map_of_inject_set [OF da db] assms(3) by simp
  have "distinct a" "distinct b"
    using da db by (simp_all add: distinct_map)
  then have "length a = card (set a)" "length b = card (set b)"
    by (simp_all add: distinct_card)
  then have len: "length a = length b"
    using sets by simp
  have "map_of b k = Some v" if "(k, v) \<in> set a" for k v
    using that sets db by simp
  then show ?thesis
    using len by (auto simp: dict_eq_def list_all_iff)
qed

lemma keys_zero_table: "dict_keys (map (\<lambda>severity. (severity, 0::int)) ks) = ks"
  by (simp add: dict_keys_def comp_def)

lemma distinct_subtotals_after:
  "distinct (dict_keys wts) \<Longrightarrow> distinct (dict_keys (subtotals_after wts labels))"
  unfolding subtotals_after_def
  by (rule distinct_fold_iadd) (simp add: keys_zero_table)

lemma map_of_subtotals_after:
  "map_of (subtotals_after wts labels) k =
     (if k \<in> set (dict_keys wts) \<union> set labels
      then Some (dict_get (map (\<lambda>severity. (severity, 0)) (dict_keys wts)) k 0
                 + int (count_list labels k) * weight_of wts k)
      else None)"
  unfolding subtotals_after_def
  by (simp only: map_of_fold_iadd keys_zero_table)

lemma perm_labels:
  assumes "mset results = mset results'"
  shows "set (map label_of results) = set (map label_of results')"
    and "count_list (map label_of results) k = count_list (map label_of results') k"
    and "sum_list (map (f :: string \<Rightarrow> int) (map label_of results)) =
         sum_list (map f (map label_of results'))"
proof -
  have m: "mset (map label_of results) = mset (map label_of results')"
    using assms by simp
  show "set (map label_of results) = set (map label_of results')"
    using m by (rule mset_eq_setD)
  show "count_list (map label_of results) k = count_list (map label_of results') k"
    using m by (metis count_mset)
  have "mset (map f (map label_of results)) = mset (map f (map label_of results'))"
    using m by (metis mset_map)
  then show "sum_list (map f (map label_of results)) = sum_list (map f (map label_of results'))"
    by (metis sum_mset_sum_list)
qed

lemma rating_rule_mono:
  "score' \<le> score \<Longrightarrow> criticals \<le> criticals' \<Longrightarrow>
     rating_rank (rating_rule score' criticals') \<le> rating_rank (rating_rule score criticals)"
  by (auto simp: rating_rule_def rating_rank_def)

lemma keys_DEFAULT: "''unknown'' \<notin> set (dict_keys DEFAULT_SEVERITY_WEIGHTS)"
  by (simp add: DEFAULT_SEVERITY_WEIGHTS_def dict_keys_def)

lemma unknown_weight_without_override:
  assumes "case severity_weights of None \<Rightarrow> True | Some overrides \<Rightarrow> ''unknown'' \<notin> set (dict_keys overrides)"
  shows "weight_of (effective_weights severity_weights) ''unknown'' = 10"
proof -
  have "''unknown'' \<notin> set (dict_keys (effective_weights severity_weights))"
  proof (cases severity_weights)
    case None
    then show ?thesis by (simp add: effective_weights_None keys_DEFAULT)
  next
    case (Some overrides)
    then show ?thesis
      using assms by (simp add: effective_weights_Some keys_dict_merge keys_DEFAULT)
  qed
  then have "map_of (effective_weights severity_weights) ''unknown'' = None"
    by (simp add: map_of_eq_None_keys)
  then show ?thesis by (rule weight_of_absent)
qed

lemma unknown_weight_with_override:
  assumes "distinct (dict_keys overrides)" "map_of overrides ''unknown'' = Some w"
  shows "weight_of (effective_weights (Some overrides)) ''unknown'' = w"
  using assms by (simp add: weight_of_lookup map_of_effective_weights)

lemma dict_get_severity_counts:
  "dict_get (fill_counts wts (counts_after labels)) l 0 = int (count_list labels l)"
  by (simp add: dict_get_def map_of_fill_counts map_of_counts_after count_list_0_iff)

lemma extract_unknown:
  assumes "case mapping_items item of None \<Rightarrow> True | Some d \<Rightarrow> map_of d ''severity'' = None"
    and "hasattr item ''severity'' = Inr False"
    and "str_text item = None"
  shows "extract_severity item = Inr ''unknown''"
  using assms
  by (simp add: extract_severity_def isinstance_Mapping_def item_contains_def dict_contains_def
      split: option.splits)

lemma extracted_append:
  "map extract_severity (xs @ ys) = map Inr (map label_of (xs @ ys)) \<longleftrightarrow>
     map extract_severity xs = map Inr (map label_of xs)
     \<and> map extract_severity ys = map Inr (map label_of ys)"
  by (auto simp: extracted_iff)

lemma extracted_perm:
  assumes "mset rs = mset rs'"
    and "map extract_severity rs = map Inr (map label_of rs)"
  shows "map extract_severity rs' = map Inr (map label_of rs')"
proof -
  have "set rs = set rs'"
    using assms(1) by (rule mset_eq_setD)
  then show ?thesis
    using assms(2) by (simp add: extracted_iff)
qed

lemma set_dict_setitem: "set (dict_setitem k v d) \<subseteq> insert (k, v) (set d)"
  by (induction d) auto

lemma nonneg_dict_merge:
  "nonneg_weights d \<Longrightarrow> nonneg_weights other \<Longrightarrow> nonneg_weights (dict_merge d other)"
proof (induction other arbitrary: d)
  case Nil
  then show ?case by (simp add: dict_merge_def)
next
  case (Cons p other)
  obtain k w where p: "p = (k, w)" by (cases p)
  have "0 \<le> w" "nonneg_weights other"
    using Cons.prems(2) by (simp_all add: p nonneg_weights_def)
  moreover have "nonneg_weights (dict_setitem k w d)"
    using set_dict_setitem [of k w d] Cons.prems(1) \<open>0 \<le> w\<close>
    by (auto simp: nonneg_weights_def list_all_iff)
  ultimately show ?case
    using Cons.IH [of "dict_setitem k w d"] by (simp add: p dict_merge_Cons)
qed

lemma valid_override_effective:
  "valid_override severity_weights \<Longrightarrow> nonneg_weights (effective_weights severity_weights)"
proof (cases severity_weights)
  case None
  then show ?thesis
    by (simp add: effective_weights_None nonneg_weights_def DEFAULT_SEVERITY_WEIGHTS_def)
next
  case (Some overrides)
  assume "valid_override severity_weights"
  then have "nonneg_weights overrides"
    using Some by (simp add: valid_override_def)
  moreover have "nonneg_weights DEFAULT_SEVERITY_WEIGHTS"
    by (simp add: nonneg_weights_def DEFAULT_SEVERITY_WEIGHTS_def)
  ultimately show ?thesis
    using Some by (simp add: effective_weights_Some nonneg_dict_merge)
qed

text \<open>The definitions that evaluating the function at a concrete input unfolds.\<close>

lemmas extract_eval =
  extract_severity_def isinstance_Mapping_def item_contains_def item_getitem_def hasattr_def
  getattr_def dict_contains_def dict_getitem_def dict_item_def str_item_def plain_item_def
  object_item_def

lemmas aggregate_eval =
  aggregate_validator_results_def effective_weights_def dict_merge_def
  DEFAULT_SEVERITY_WEIGHTS_def loop_body_def extract_eval
  weight_of_def dict_get_def dict_iadd_def dict_keys_def UNKNOWN_SEVERITY_WEIGHT_def
  MAX_SCORE_def rating_from_score_def RATING_THRESHOLDS_def CRITICAL_SEVERITY_def
  fill_counts_def dict_setdefault_def Let_def

section \<open>Aggregation: score, rating and counts\<close>

text \<open>
  C1: for every finite sequence of result items whose extraction returns the labels
  \<open>labels\<close> and every override table, present or absent, the function returns a verdict
  whose hygiene score is \<open>max 0 (100 - total)\<close>, where \<open>total\<close> is the sum, over the
  items, of the weight of the item's extracted label: the weight found in the merged
  table, or 10 when the label is not a key of it. The verdict's
  \<^verbatim>\<open>penalties.total_penalty\<close> is that same sum.
\<close>

theorem hygiene_score_formula:
  assumes "map extract_severity results = map Inr labels"
  shows "\<exists>v. aggregate_validator_results results severity_weights = Inr v
       \<and> hygiene_score v =
           max 0 (100 - (\<Sum>l\<leftarrow>labels.
                           case map_of (effective_weights severity_weights) l of
                             Some w \<Rightarrow> w
                           | None \<Rightarrow> 10))
       \<and> total_penalty (penalties v) =
           (\<Sum>l\<leftarrow>labels.
              case map_of (effective_weights severity_weights) l of
                Some w \<Rightarrow> w
              | None \<Rightarrow> 10)"
proof -
  have labels: "map label_of results = labels"
    using labels_unique [OF assms] by simp
  have w: "weight_of (effective_weights severity_weights) =
             (\<lambda>l. case map_of (effective_weights severity_weights) l of Some w \<Rightarrow> w | None \<Rightarrow> 10)"
    by (rule ext) (rule weight_of_lookup)
  show ?thesis
    by (simp only: aggregate_run [OF extracted_label_of [OF assms]] labels w) simp
qed

text \<open>
  C1 at a concrete input: a mapping, a bare string, an unrecognised item and an object
  with the attribute, with \<^verbatim>\<open>high\<close> overridden to 30: the total is 30 + 5 + 10 + 30.
\<close>

theorem hygiene_score_formula_witness:
  "map extract_severity
     [dict_item [(''severity'', PStr ''high'')], str_item ''low'', plain_item,
      object_item [(''severity'', PStr ''high'')]] =
     map Inr [''high'', ''low'', ''unknown'', ''high'']
   \<and> (\<exists>v. aggregate_validator_results
             [dict_item [(''severity'', PStr ''high'')], str_item ''low'', plain_item,
              object_item [(''severity'', PStr ''high'')]] (Some [(''high'', 30)]) = Inr v
          \<and> hygiene_score v = 25 \<and> total_penalty (penalties v) = 75)"
proof -
  have h: "map extract_severity
     [dict_item [(''severity'', PStr ''high'')], str_item ''low'', plain_item,
      object_item [(''severity'', PStr ''high'')]] =
     map Inr [''high'', ''low'', ''unknown'', ''high'']"
    by (simp add: extract_eval)
  have w: "effective_weights (Some [(''high'', 30)]) =
             [(''critical'', 50), (''high'', 30), (''medium'', 10), (''low'', 5), (''info'', 0)]"
    by (simp add: effective_weights_def dict_merge_def DEFAULT_SEVERITY_WEIGHTS_def)
  show ?thesis
    using h hygiene_score_formula [OF h, of "Some [(''high'', 30)]"]
    by (simp add: w)
qed

text \<open>
  C2, as amended: the rating is derived from the hygiene score and the number of items
  whose extracted label is \<^verbatim>\<open>critical\<close> by the first-match rule: \<^verbatim>\<open>clean\<close> iff
  the score is at least 90 and that number is 0; otherwise \<^verbatim>\<open>needs_attention\<close> iff
  the score is at least 60; otherwise \<^verbatim>\<open>unsafe\<close>. In particular a single item of
  severity \<^verbatim>\<open>critical\<close> under the default weights yields score 50 and the rating
  \<^verbatim>\<open>unsafe\<close> (50 is below the threshold 60), never \<^verbatim>\<open>clean\<close>.
\<close>

theorem rating_first_match_rule:
  "(map extract_severity results = map Inr labels \<longrightarrow>
      (\<exists>v. aggregate_validator_results results severity_weights = Inr v
          \<and> rating v =
              (if hygiene_score v \<ge> 90 \<and> count_list labels ''critical'' = 0 then ''clean''
               else if hygiene_score v \<ge> 60 then ''needs_attention''
               else ''unsafe'')))
   \<and> (\<forall>item. extract_severity item = Inr ''critical'' \<longrightarrow>
          (\<exists>v. aggregate_validator_results [item] None = Inr v
               \<and> hygiene_score v = 50 \<and> rating v = ''unsafe''))"
proof (intro conjI allI impI)
  assume a: "map extract_severity results = map Inr labels"
  have labels: "map label_of results = labels"
    using labels_unique [OF a] by simp
  show "\<exists>v. aggregate_validator_results results severity_weights = Inr v
          \<and> rating v =
              (if hygiene_score v \<ge> 90 \<and> count_list labels ''critical'' = 0 then ''clean''
               else if hygiene_score v \<ge> 60 then ''needs_attention''
               else ''unsafe'')"
    by (simp only: aggregate_run [OF extracted_label_of [OF a]] labels rating_rule_def)
      (simp add: max_def)
next
  fix item
  assume a: "extract_severity item = Inr ''critical''"
  then have label: "label_of item = ''critical''"
    by (rule label_of_Inr)
  have ok: "map extract_severity [item] = map Inr (map label_of [item])"
    by (simp add: a label)
  have "weight_of (effective_weights None) ''critical'' = 50"
    by (simp add: effective_weights_None weight_of_def dict_get_def DEFAULT_SEVERITY_WEIGHTS_def)
  then show "\<exists>v. aggregate_validator_results [item] None = Inr v
               \<and> hygiene_score v = 50 \<and> rating v = ''unsafe''"
    by (simp add: aggregate_run [OF ok] label rating_rule_def)
qed

text \<open>
  C2 as amended, at the item \<^verbatim>\<open>{"severity": "critical"}\<close>.
\<close>

theorem rating_first_match_rule_witness:
  "map extract_severity [dict_item [(''severity'', PStr ''critical'')]] = map Inr [''critical'']
   \<and> extract_severity (dict_item [(''severity'', PStr ''critical'')]) = Inr ''critical''
   \<and> (\<exists>v. aggregate_validator_results [dict_item [(''severity'', PStr ''critical'')]] None = Inr v
          \<and> hygiene_score v = 50 \<and> rating v = ''unsafe''
          \<and> rating v =
              (if hygiene_score v \<ge> 90 \<and> count_list [''critical''] ''critical'' = 0 then ''clean''
               else if hygiene_score v \<ge> 60 then ''needs_attention''
               else ''unsafe''))"
proof -
  have h: "extract_severity (dict_item [(''severity'', PStr ''critical'')]) = Inr ''critical''"
    by (simp add: extract_eval)
  then have hs: "map extract_severity [dict_item [(''severity'', PStr ''critical'')]] =
                   map Inr [''critical'']"
    by simp
  note rule = rating_first_match_rule
    [of "[dict_item [(''severity'', PStr ''critical'')]]" "[''critical'']" None]
  obtain v where v: "aggregate_validator_results
      [dict_item [(''severity'', PStr ''critical'')]] None = Inr v"
    and r: "rating v =
              (if hygiene_score v \<ge> 90 \<and> count_list [''critical''] ''critical'' = 0 then ''clean''
               else if hygiene_score v \<ge> 60 then ''needs_attention''
               else ''unsafe'')"
    using rule hs by blast
  obtain v' where v': "aggregate_validator_results
      [dict_item [(''severity'', PStr ''critical'')]] None = Inr v'"
    and s: "hygiene_score v' = 50" "rating v' = ''unsafe''"
    using rule h by blast
  have "v' = v"
    using v v' by simp
  then show ?thesis
    using h hs v r s by blast
qed

text \<open>
  C2 as written names the rating \<^verbatim>\<open>needs_attention\<close> for the single critical item;
  the function returns \<^verbatim>\<open>unsafe\<close>.
\<close>

theorem single_critical_counterexample:
  "aggregate_validator_results [dict_item [(''severity'', PStr ''critical'')]] None =
     Inr \<lparr>hygiene_score = 50, rating = ''unsafe'',
          severity_counts =
            [(''critical'', 1), (''high'', 0), (''medium'', 0), (''low'', 0), (''info'', 0)],
          penalties =
            \<lparr>total_penalty = 50,
             by_severity =
               [(''critical'', 50), (''high'', 0), (''medium'', 0), (''low'', 0), (''info'', 0)],
             weights =
               [(''critical'', 50), (''high'', 25), (''medium'', 10), (''low'', 5), (''info'', 0)],
             unknown_weight = 10\<rparr>,
          max_score = 100\<rparr>
   \<and> ''unsafe'' \<noteq> ''needs_attention''"
  by (simp add: aggregate_eval)

text \<open>
  C9: when the extraction of the items returns the labels \<open>labels\<close>, the keys of the
  returned \<^verbatim>\<open>severity_counts\<close> are exactly the keys of the effective weight table
  together with the observed labels, each once; an observed label maps to its number of
  occurrences, and a key of the weight table that was never observed maps to 0.
\<close>

theorem severity_counts_keys:
  assumes "map extract_severity results = map Inr labels"
  shows "\<exists>v. aggregate_validator_results results severity_weights = Inr v
       \<and> set (dict_keys (severity_counts v)) =
           set (dict_keys (effective_weights severity_weights)) \<union> set labels
       \<and> distinct (dict_keys (severity_counts v))
       \<and> (\<forall>l. map_of (severity_counts v) l =
                (if l \<in> set labels then Some (int (count_list labels l))
                 else if l \<in> set (dict_keys (effective_weights severity_weights)) then Some 0
                 else None))"
proof -
  let ?wts = "effective_weights severity_weights"
  let ?out = "fill_counts ?wts (counts_after labels)"
  have labels: "map label_of results = labels"
    using labels_unique [OF assms] by simp
  have keys: "set (dict_keys ?out) = set (dict_keys ?wts) \<union> set labels"
    by (simp only: keys_fill_counts keys_counts_after Un_commute)
  have dist: "distinct (dict_keys ?out)"
    by (rule distinct_fill_counts) (rule distinct_counts_after)
  have look: "map_of ?out l =
                (if l \<in> set labels then Some (int (count_list labels l))
                 else if l \<in> set (dict_keys ?wts) then Some 0 else None)" for l
    by (simp only: map_of_fill_counts map_of_counts_after) simp
  show ?thesis
    apply (simp only: aggregate_run [OF extracted_label_of [OF assms]] labels)
    apply (rule exI [of _ "projr (aggregate_validator_results results severity_weights)"])
    apply (simp only: aggregate_run [OF extracted_label_of [OF assms]] labels sum.sel verdict.simps)
    using keys dist look apply blast
    done
qed

text \<open>
  C9 at two \<^verbatim>\<open>custom\<close> items and one \<^verbatim>\<open>low\<close> item under the default table.
\<close>

theorem severity_counts_keys_witness:
  "map extract_severity [str_item ''custom'', str_item ''low'', str_item ''custom''] =
     map Inr [''custom'', ''low'', ''custom'']
   \<and> (\<exists>v. aggregate_validator_results
             [str_item ''custom'', str_item ''low'', str_item ''custom''] None = Inr v
          \<and> set (dict_keys (severity_counts v)) =
              {''critical'', ''high'', ''medium'', ''low'', ''info'', ''custom''}
          \<and> map_of (severity_counts v) ''custom'' = Some 2
          \<and> map_of (severity_counts v) ''low'' = Some 1
          \<and> map_of (severity_counts v) ''high'' = Some 0
          \<and> map_of (severity_counts v) ''other'' = None)"
proof -
  have h: "map extract_severity [str_item ''custom'', str_item ''low'', str_item ''custom''] =
     map Inr [''custom'', ''low'', ''custom'']"
    by (simp add: extract_eval)
  have k: "set (dict_keys (effective_weights None)) =
             {''critical'', ''high'', ''medium'', ''low'', ''info''}"
    by (simp add: effective_weights_None DEFAULT_SEVERITY_WEIGHTS_def dict_keys_def)
  obtain v where v: "aggregate_validator_results
             [str_item ''custom'', str_item ''low'', str_item ''custom''] None = Inr v"
    and keys: "set (dict_keys (severity_counts v)) =
           set (dict_keys (effective_weights None)) \<union> set [''custom'', ''low'', ''custom'']"
    and look: "\<And>l. map_of (severity_counts v) l =
                (if l \<in> set [''custom'', ''low'', ''custom'']
                 then Some (int (count_list [''custom'', ''low'', ''custom''] l))
                 else if l \<in> set (dict_keys (effective_weights None)) then Some 0
                 else None)"
    using severity_counts_keys [OF h, of None] by blast
  have "set (dict_keys (severity_counts v)) =
              {''critical'', ''high'', ''medium'', ''low'', ''info'', ''custom''}"
    unfolding keys k by auto
  moreover have "map_of (severity_counts v) ''custom'' = Some 2"
    "map_of (severity_counts v) ''low'' = Some 1"
    "map_of (severity_counts v) ''high'' = Some 0"
    "map_of (severity_counts v) ''other'' = None"
    unfolding look k by simp_all
  ultimately show ?thesis
    using h v by blast
qed

section \<open>Severity extraction: first match and exceptions\<close>

text \<open>
  C3, as amended: severity extraction resolves in a fixed first-match order. (1) A
  mapping with a \<^verbatim>\<open>"severity"\<close> entry gives \<^verbatim>\<open>str\<close> of that entry. (2) Else an
  item whose \<^verbatim>\<open>severity\<close> attribute can be read gives \<^verbatim>\<open>str\<close> of the attribute.
  (3) Else, when reading the attribute raises \<^verbatim>\<open>AttributeError\<close>, a string gives itself
  and (4) any other item gives \<^verbatim>\<open>unknown\<close>. The function catches nothing: an
  exception of the attribute other than \<^verbatim>\<open>AttributeError\<close> propagates, and so does an
  exception of \<^verbatim>\<open>str\<close>. \<^verbatim>\<open>str\<close> returns for a string (unchanged), for
  \<^verbatim>\<open>None\<close>, for a boolean and for an integer of at most 4300 digits, so extraction
  returns a label for every item whose severity is one of these.
\<close>

theorem extract_severity_first_match:
  "(\<forall>d v. mapping_items item = Some d \<and> map_of d ''severity'' = Some v \<longrightarrow>
       extract_severity item = py_str v)
   \<and> ((case mapping_items item of None \<Rightarrow> True | Some d \<Rightarrow> map_of d ''severity'' = None) \<longrightarrow>
        (\<forall>v. getattr item ''severity'' = Inr v \<longrightarrow> extract_severity item = py_str v)
        \<and> (\<forall>e. getattr item ''severity'' = Inl e \<and> e \<noteq> AttributeError \<longrightarrow>
              extract_severity item = Inl e)
        \<and> (getattr item ''severity'' = Inl AttributeError \<longrightarrow>
              extract_severity item =
                (case str_text item of Some s \<Rightarrow> Inr s | None \<Rightarrow> Inr ''unknown'')))
   \<and> py_str (PStr t) = Inr t
   \<and> py_str PNone = Inr ''None''
   \<and> py_str (PBool b) = Inr (if b then ''True'' else ''False'')
   \<and> (length (digits_of_nat (nat \<bar>i\<bar>)) \<le> INT_MAX_STR_DIGITS \<longrightarrow>
        py_str (PInt i) =
          Inr (if i < 0 then ''-'' @ digits_of_nat (nat \<bar>i\<bar>) else digits_of_nat (nat \<bar>i\<bar>)))"
proof (intro conjI allI impI)
  fix d v
  assume "mapping_items item = Some d \<and> map_of d ''severity'' = Some v"
  then show "extract_severity item = py_str v"
    by (simp add: extract_severity_def isinstance_Mapping_def item_contains_def item_getitem_def
        dict_contains_def dict_getitem_def)
next
  assume no_entry: "case mapping_items item of None \<Rightarrow> True | Some d \<Rightarrow> map_of d ''severity'' = None"
  then have skip: "\<not> (isinstance_Mapping item \<and> item_contains item ''severity'')"
    by (auto simp: isinstance_Mapping_def item_contains_def dict_contains_def split: option.splits)
  have rest: "extract_severity item =
      (case hasattr item ''severity'' of
         Inl e \<Rightarrow> Inl e
       | Inr has \<Rightarrow>
           if has then (case getattr item ''severity'' of Inl e \<Rightarrow> Inl e | Inr v \<Rightarrow> py_str v)
           else (case str_text item of Some s \<Rightarrow> Inr s | None \<Rightarrow> Inr ''unknown''))"
    by (simp only: extract_severity_def skip if_False)
  show "extract_severity item = py_str v" if "getattr item ''severity'' = Inr v" for v
    using that by (simp add: rest hasattr_def)
  show "extract_severity item = Inl e"
    if "getattr item ''severity'' = Inl e \<and> e \<noteq> AttributeError" for e
    using that by (simp add: rest hasattr_def)
  show "extract_severity item = (case str_text item of Some s \<Rightarrow> Inr s | None \<Rightarrow> Inr ''unknown'')"
    if "getattr item ''severity'' = Inl AttributeError"
    using that by (simp add: rest hasattr_def)
next
  show "py_str (PInt i) =
          Inr (if i < 0 then ''-'' @ digits_of_nat (nat \<bar>i\<bar>) else digits_of_nat (nat \<bar>i\<bar>))"
    if "length (digits_of_nat (nat \<bar>i\<bar>)) \<le> INT_MAX_STR_DIGITS"
    using that by (simp add: Let_def)
qed simp_all

text \<open>
  C3 as amended, at concrete items: an object that is a mapping with the entry, has the
  attribute and is a string resolves by rule 1; a mapping without the entry but with the
  attribute by rule 2; the same with a property that raises propagates the exception; a
  bare string resolves by rule 3; a mapping without the entry by rule 4.
\<close>

theorem extract_severity_first_match_witness:
  "extract_severity \<lparr>mapping_items = Some [(''severity'', PInt (- 3))],
                      attributes = [(''severity'', Inr (PStr ''low''))],
                      str_text = Some ''high''\<rparr> = Inr ''-3''
   \<and> extract_severity \<lparr>mapping_items = Some [(''id'', PInt 3)],
                        attributes = [(''severity'', Inr PNone)],
                        str_text = Some ''high''\<rparr> = Inr ''None''
   \<and> extract_severity \<lparr>mapping_items = Some [(''id'', PInt 3)],
                        attributes = [(''severity'', Inl (OtherError ''RuntimeError''))],
                        str_text = Some ''high''\<rparr> = Inl (OtherError ''RuntimeError'')
   \<and> extract_severity (str_item ''high'') = Inr ''high''
   \<and> extract_severity (dict_item [(''id'', PInt 7)]) = Inr ''unknown''"
proof -
  let ?a = "\<lparr>mapping_items = Some [(''severity'', PInt (- 3))],
             attributes = [(''severity'', Inr (PStr ''low''))], str_text = Some ''high''\<rparr>"
  let ?b = "\<lparr>mapping_items = Some [(''id'', PInt 3)],
             attributes = [(''severity'', Inr PNone)], str_text = Some ''high''\<rparr>"
  let ?c = "\<lparr>mapping_items = Some [(''id'', PInt 3)],
             attributes = [(''severity'', Inl (OtherError ''RuntimeError''))],
             str_text = Some ''high''\<rparr>"
  have digits: "digits_of_nat 3 = ''3''"
    by (simp add: digits_of_nat.simps)
  have short: "length (digits_of_nat (nat \<bar>- 3 :: int\<bar>)) \<le> INT_MAX_STR_DIGITS"
    by (simp add: digits INT_MAX_STR_DIGITS_def)
  have "extract_severity ?a = Inr ''-3''"
    using extract_severity_first_match [where item = ?a and i = "- 3"] short by (simp add: digits)
  moreover have "extract_severity ?b = Inr ''None''"
    using extract_severity_first_match [of ?b] by (simp add: getattr_def)
  moreover have "extract_severity ?c = Inl (OtherError ''RuntimeError'')"
    using extract_severity_first_match [of ?c] by (simp add: getattr_def)
  moreover have "extract_severity (str_item ''high'') = Inr ''high''"
    using extract_severity_first_match [of "str_item ''high''"]
    by (simp add: getattr_def str_item_def)
  moreover have "extract_severity (dict_item [(''id'', PInt 7)]) = Inr ''unknown''"
    using extract_severity_first_match [of "dict_item [(''id'', PInt 7)]"]
    by (simp add: getattr_def dict_item_def)
  ultimately show ?thesis
    by (intro conjI)
qed

text \<open>
  C3 as written says that extraction never raises. It raises \<^verbatim>\<open>ValueError\<close> on a
  mapping whose severity is an integer of 4301 digits, it propagates \<^verbatim>\<open>ValueError\<close>
  from a \<^verbatim>\<open>severity\<close> property that raises it (only \<^verbatim>\<open>AttributeError\<close> is caught by
  \<^verbatim>\<open>hasattr\<close>), and it propagates what the \<^verbatim>\<open>__str__\<close> of the severity raises.
\<close>

theorem extract_severity_raises_counterexample:
  "extract_severity (dict_item [(''severity'', PInt (10 ^ INT_MAX_STR_DIGITS))]) = Inl ValueError
   \<and> extract_severity
       \<lparr>mapping_items = None, attributes = [(''severity'', Inl ValueError)], str_text = None\<rparr> =
     Inl ValueError
   \<and> extract_severity (dict_item [(''severity'', POther (Inl (OtherError ''RuntimeError'')))]) =
     Inl (OtherError ''RuntimeError'')"
  by (simp add: extract_eval py_str_too_long del: py_str.simps(3))

section \<open>The weight table, bounds and order\<close>




text \<open>
  C5: for every input sequence whose extraction returns and every override table, the
  hygiene score is an integer that is never below 0, however large the total penalty;
  and for every override table of the data model (no negative weight) it never exceeds
  100.
\<close>

theorem hygiene_score_bounds:
  assumes "map extract_severity results = map Inr labels"
  shows "\<exists>v. aggregate_validator_results results severity_weights = Inr v
       \<and> 0 \<le> hygiene_score v
       \<and> (valid_override severity_weights \<longrightarrow> hygiene_score v \<le> 100)"
proof -
  have "valid_override severity_weights \<longrightarrow>
          0 \<le> sum_list (map (weight_of (effective_weights severity_weights))
                              (map label_of results))"
    using total_nonneg valid_override_effective by blast
  then show ?thesis
    by (simp only: aggregate_run [OF extracted_label_of [OF assms]]) (simp add: max_def)
qed

text \<open>
  C5 with \<^verbatim>\<open>critical\<close> overridden to 100: the penalty 105 is clamped to the score 0.
\<close>

theorem hygiene_score_bounds_witness:
  "map extract_severity [str_item ''critical'', str_item ''low''] = map Inr [''critical'', ''low'']
   \<and> valid_override (Some [(''critical'', 100)])
   \<and> (\<exists>v. aggregate_validator_results [str_item ''critical'', str_item ''low'']
             (Some [(''critical'', 100)]) = Inr v
          \<and> hygiene_score v = 0 \<and> 0 \<le> hygiene_score v \<and> hygiene_score v \<le> 100)"
proof -
  have h: "map extract_severity [str_item ''critical'', str_item ''low''] =
             map Inr [''critical'', ''low'']"
    by (simp add: extract_eval)
  have o: "valid_override (Some [(''critical'', 100)])"
    by (simp add: valid_override_def nonneg_weights_def)
  have e: "hygiene_score v = 0"
    if "aggregate_validator_results [str_item ''critical'', str_item ''low'']
             (Some [(''critical'', 100)]) = Inr v" for v
    using that by (auto simp: aggregate_eval)
  show ?thesis
    using h o e hygiene_score_bounds [OF h, of "Some [(''critical'', 100)]"]
    by blast
qed

text \<open>
  C6: two input sequences with the same multiset of items, whose extraction returns,
  give with the same override table equal verdicts: the same score, rating, total
  penalty, fallback weight and maximum, and dictionaries \<^verbatim>\<open>severity_counts\<close>,
  \<^verbatim>\<open>by_severity\<close> and \<^verbatim>\<open>weights\<close> that are equal as Python dictionaries (equality
  of dictionaries does not look at the order of insertion).
\<close>

theorem aggregate_permutation_invariant:
  assumes "mset results = mset results'"
    and "map extract_severity results = map Inr labels"
  shows "\<exists>v v'. aggregate_validator_results results severity_weights = Inr v
            \<and> aggregate_validator_results results' severity_weights = Inr v'
            \<and> verdict_eq v v'"
proof -
  let ?wts = "effective_weights severity_weights"
  let ?L = "map label_of results" and ?L' = "map label_of results'"
  note ok = extracted_label_of [OF assms(2)]
  note ok' = extracted_perm [OF assms(1) ok]
  note p = perm_labels [OF assms(1)]
  have total: "sum_list (map (weight_of ?wts) ?L) = sum_list (map (weight_of ?wts) ?L')"
    by (rule p(3))
  have crit: "count_list ?L ''critical'' = count_list ?L' ''critical''"
    by (rule p(2))
  have "map_of (counts_after ?L) = map_of (counts_after ?L')"
    by (rule ext) (simp only: map_of_counts_after p(1) p(2))
  then have "map_of (fill_counts ?wts (counts_after ?L)) = map_of (fill_counts ?wts (counts_after ?L'))"
    by (intro ext) (simp only: map_of_fill_counts)
  then have counts: "dict_eq (fill_counts ?wts (counts_after ?L)) (fill_counts ?wts (counts_after ?L'))"
    by (intro dict_eqI distinct_fill_counts distinct_counts_after)
  have "map_of (subtotals_after ?wts ?L) = map_of (subtotals_after ?wts ?L')"
    by (rule ext) (simp only: map_of_subtotals_after p(1) p(2))
  then have subs: "dict_eq (subtotals_after ?wts ?L) (subtotals_after ?wts ?L')"
    by (intro dict_eqI distinct_subtotals_after distinct_effective_weights)
  have wts: "dict_eq ?wts ?wts"
    by (intro dict_eqI distinct_effective_weights refl)
  show ?thesis
    by (simp only: aggregate_run [OF ok] aggregate_run [OF ok'] total crit)
      (simp add: verdict_eq_def counts subs wts)
qed

text \<open>
  C6 at a sequence of three items and a rotation of it.
\<close>

theorem aggregate_permutation_invariant_witness:
  "mset [str_item ''high'', plain_item, dict_item [(''severity'', PStr ''low'')]] =
     mset [dict_item [(''severity'', PStr ''low'')], str_item ''high'', plain_item]
   \<and> map extract_severity [str_item ''high'', plain_item, dict_item [(''severity'', PStr ''low'')]] =
       map Inr [''high'', ''unknown'', ''low'']
   \<and> (\<exists>v v'. aggregate_validator_results
                 [str_item ''high'', plain_item, dict_item [(''severity'', PStr ''low'')]] None = Inr v
            \<and> aggregate_validator_results
                 [dict_item [(''severity'', PStr ''low'')], str_item ''high'', plain_item] None = Inr v'
            \<and> verdict_eq v v')"
proof -
  have h: "mset [str_item ''high'', plain_item, dict_item [(''severity'', PStr ''low'')]] =
     mset [dict_item [(''severity'', PStr ''low'')], str_item ''high'', plain_item]"
    by (simp add: add_mset_commute)
  have e: "map extract_severity
             [str_item ''high'', plain_item, dict_item [(''severity'', PStr ''low'')]] =
           map Inr [''high'', ''unknown'', ''low'']"
    by (simp add: extract_eval)
  show ?thesis
    using h e aggregate_permutation_invariant [OF h e, of None] by blast
qed

text \<open>
  C7: for every override table of the data model (no negative weight), inserting one
  more result item anywhere in the sequence gives a verdict whose hygiene score is no
  greater than before and whose rating is no closer to \<^verbatim>\<open>clean\<close> in the order clean,
  needs_attention, unsafe.
\<close>

theorem adding_item_monotone:
  assumes "map extract_severity (before @ item # after) = map Inr labels"
    and "valid_override severity_weights"
  shows "\<exists>v v'. aggregate_validator_results (before @ after) severity_weights = Inr v
            \<and> aggregate_validator_results (before @ item # after) severity_weights = Inr v'
            \<and> hygiene_score v' \<le> hygiene_score v
            \<and> rating_rank (rating v') \<le> rating_rank (rating v)"
proof -
  let ?wts = "effective_weights severity_weights"
  let ?L = "map label_of (before @ after)"
  let ?L' = "map label_of (before @ item # after)"
  note ok' = extracted_label_of [OF assms(1)]
  have ok: "map extract_severity (before @ after) = map Inr (map label_of (before @ after))"
    using ok' by (simp add: extracted_iff)
  have total: "sum_list (map (weight_of ?wts) ?L') =
                 sum_list (map (weight_of ?wts) ?L) + weight_of ?wts (label_of item)"
    by simp
  have "0 \<le> weight_of ?wts (label_of item)"
    using valid_override_effective [OF assms(2)] by (rule weight_of_nonneg)
  then have score: "max 0 (100 - sum_list (map (weight_of ?wts) ?L')) \<le>
                      max 0 (100 - sum_list (map (weight_of ?wts) ?L))"
    unfolding total by simp
  have crit: "count_list ?L ''critical'' \<le> count_list ?L' ''critical''"
    by simp
  show ?thesis
    using score rating_rule_mono [OF score crit]
    by (simp only: aggregate_run [OF ok] aggregate_run [OF ok']) simp
qed

text \<open>
  C7 under the default weights: a \<^verbatim>\<open>critical\<close> item added to one \<^verbatim>\<open>low\<close> item.
\<close>

theorem adding_item_monotone_witness:
  "map extract_severity ([str_item ''low''] @ str_item ''critical'' # []) =
     map Inr [''low'', ''critical'']
   \<and> valid_override None
   \<and> (\<exists>v v'. aggregate_validator_results [str_item ''low''] None = Inr v
            \<and> aggregate_validator_results [str_item ''low'', str_item ''critical''] None = Inr v'
            \<and> hygiene_score v' \<le> hygiene_score v
            \<and> rating_rank (rating v') \<le> rating_rank (rating v))"
proof -
  have e: "map extract_severity ([str_item ''low''] @ str_item ''critical'' # []) =
     map Inr [''low'', ''critical'']"
    by (simp add: extract_eval)
  have h: "valid_override None"
    by (simp add: valid_override_def)
  show ?thesis
    using e h adding_item_monotone [OF e h]
    by simp
qed

section \<open>Empty input, exceptions and unrecognised items\<close>

text \<open>
  C8, as amended: aggregating the empty sequence without an override table yields score
  100, rating \<^verbatim>\<open>clean\<close> and a count of 0 for each label of the default table. For
  every sequence of items whose extraction returns and every override table the function
  returns a verdict; when the extraction of an item raises, and that of the items before
  it returns, the function raises that exception.
\<close>

theorem empty_input_and_exceptions:
  "aggregate_validator_results [] None =
     Inr \<lparr>hygiene_score = 100, rating = ''clean'',
          severity_counts =
            [(''critical'', 0), (''high'', 0), (''medium'', 0), (''low'', 0), (''info'', 0)],
          penalties =
            \<lparr>total_penalty = 0,
             by_severity =
               [(''critical'', 0), (''high'', 0), (''medium'', 0), (''low'', 0), (''info'', 0)],
             weights = DEFAULT_SEVERITY_WEIGHTS,
             unknown_weight = 10\<rparr>,
          max_score = 100\<rparr>
   \<and> (map extract_severity results = map Inr labels \<longrightarrow>
        (\<exists>v. aggregate_validator_results results severity_weights = Inr v))
   \<and> (map extract_severity before = map Inr labels' \<and> extract_severity item = Inl e \<longrightarrow>
        aggregate_validator_results (before @ item # after) severity_weights = Inl e)"
proof (intro conjI impI)
  show "aggregate_validator_results [] None =
     Inr \<lparr>hygiene_score = 100, rating = ''clean'',
          severity_counts =
            [(''critical'', 0), (''high'', 0), (''medium'', 0), (''low'', 0), (''info'', 0)],
          penalties =
            \<lparr>total_penalty = 0,
             by_severity =
               [(''critical'', 0), (''high'', 0), (''medium'', 0), (''low'', 0), (''info'', 0)],
             weights = DEFAULT_SEVERITY_WEIGHTS,
             unknown_weight = 10\<rparr>,
          max_score = 100\<rparr>"
    by (simp add: aggregate_eval)
next
  assume "map extract_severity results = map Inr labels"
  then have "map extract_severity results = map Inr (map label_of results)"
    by (rule extracted_label_of)
  then show "\<exists>v. aggregate_validator_results results severity_weights = Inr v"
    by (simp add: aggregate_run)
next
  assume a: "map extract_severity before = map Inr labels' \<and> extract_severity item = Inl e"
  then have "map extract_severity before = map Inr (map label_of before)"
    using extracted_label_of by blast
  then show "aggregate_validator_results (before @ item # after) severity_weights = Inl e"
    using a by (simp add: aggregate_raises)
qed

text \<open>
  C8 as amended, at a sequence of a string and a number, and at a sequence whose second
  item has a \<^verbatim>\<open>severity\<close> property that raises \<^verbatim>\<open>ValueError\<close>.
\<close>

theorem empty_input_and_exceptions_witness:
  "map extract_severity [str_item ''high'', plain_item] = map Inr [''high'', ''unknown'']
   \<and> (\<exists>v. aggregate_validator_results [str_item ''high'', plain_item] None = Inr v)
   \<and> map extract_severity [str_item ''high''] = map Inr [''high'']
   \<and> extract_severity
       \<lparr>mapping_items = None, attributes = [(''severity'', Inl ValueError)], str_text = None\<rparr> =
     Inl ValueError
   \<and> aggregate_validator_results
       ([str_item ''high''] @
        \<lparr>mapping_items = None, attributes = [(''severity'', Inl ValueError)], str_text = None\<rparr> #
        [plain_item]) None = Inl ValueError"
proof -
  let ?bad = "\<lparr>mapping_items = None, attributes = [(''severity'', Inl ValueError)],
               str_text = None\<rparr>"
  have h1: "map extract_severity [str_item ''high'', plain_item] = map Inr [''high'', ''unknown'']"
    and h2: "map extract_severity [str_item ''high''] = map Inr [''high'']"
    and h3: "extract_severity ?bad = Inl ValueError"
    by (simp_all add: extract_eval)
  have "\<exists>v. aggregate_validator_results [str_item ''high'', plain_item] None = Inr v"
    using h1 empty_input_and_exceptions
      [where results = "[str_item ''high'', plain_item]" and labels = "[''high'', ''unknown'']"
        and severity_weights = None]
    by blast
  moreover have "aggregate_validator_results ([str_item ''high''] @ ?bad # [plain_item]) None =
                   Inl ValueError"
    using h2 h3 empty_input_and_exceptions
      [where before = "[str_item ''high'']" and labels' = "[''high'']" and item = ?bad
        and e = ValueError and after = "[plain_item]" and severity_weights = None]
    by blast
  ultimately show ?thesis
    using h1 h2 h3 by (intro conjI)
qed

text \<open>
  C8 as written says that the function has no error condition. On one object whose
  \<^verbatim>\<open>severity\<close> attribute is an integer of 4301 digits it raises \<^verbatim>\<open>ValueError\<close>.
\<close>

theorem too_long_integer_counterexample:
  "aggregate_validator_results
     [object_item [(''severity'', PInt (10 ^ INT_MAX_STR_DIGITS))]] None = Inl ValueError"
proof -
  have "extract_severity (object_item [(''severity'', PInt (10 ^ INT_MAX_STR_DIGITS))]) =
          Inl ValueError"
    by (simp add: extract_eval py_str_too_long del: py_str.simps(3))
  then show ?thesis
    using aggregate_raises [of "[]" _ ValueError "[]" None] by simp
qed

text \<open>
  C10, as amended: an item of none of the three shapes (not a mapping with a
  \<^verbatim>\<open>"severity"\<close> entry, no \<^verbatim>\<open>severity\<close> attribute, not a string) is extracted as
  \<^verbatim>\<open>unknown\<close>. Inserting it anywhere in a sequence raises the count of
  \<^verbatim>\<open>unknown\<close> by one and the total penalty by the weight of \<^verbatim>\<open>unknown\<close>. That
  weight is the fallback 10 when there is no override table or the override table has no
  key \<^verbatim>\<open>unknown\<close> (the default table has none); the hygiene score then drops by
  exactly 10 if it was at least 10, and is 0 otherwise. When the override table defines
  \<^verbatim>\<open>unknown\<close>, its weight applies instead.
\<close>

theorem unrecognized_item_charged:
  assumes "case mapping_items item of None \<Rightarrow> True | Some d \<Rightarrow> map_of d ''severity'' = None"
    and "hasattr item ''severity'' = Inr False"
    and "str_text item = None"
    and "map extract_severity (before @ after) = map Inr labels"
  shows "extract_severity item = Inr ''unknown''
    \<and> (\<exists>v v'. aggregate_validator_results (before @ after) severity_weights = Inr v
          \<and> aggregate_validator_results (before @ item # after) severity_weights = Inr v'
          \<and> map_of (severity_counts v') ''unknown'' =
              Some (dict_get (severity_counts v) ''unknown'' 0 + 1)
          \<and> total_penalty (penalties v') =
              total_penalty (penalties v) + weight_of (effective_weights severity_weights) ''unknown''
          \<and> ((case severity_weights of
                 None \<Rightarrow> True
               | Some overrides \<Rightarrow> ''unknown'' \<notin> set (dict_keys overrides)) \<longrightarrow>
               weight_of (effective_weights severity_weights) ''unknown'' = 10
               \<and> total_penalty (penalties v') = total_penalty (penalties v) + 10
               \<and> hygiene_score v' = (if 10 \<le> hygiene_score v then hygiene_score v - 10 else 0)))
    \<and> (\<forall>overrides w.
          severity_weights = Some overrides \<and> distinct (dict_keys overrides)
          \<and> map_of overrides ''unknown'' = Some w \<longrightarrow>
          weight_of (effective_weights severity_weights) ''unknown'' = w)"
proof (intro conjI)
  let ?wts = "effective_weights severity_weights"
  let ?L = "map label_of (before @ after)"
  let ?L' = "map label_of (before @ item # after)"
  show unknown: "extract_severity item = Inr ''unknown''"
    using assms(1-3) by (rule extract_unknown)
  then have label: "label_of item = ''unknown''"
    by (rule label_of_Inr)
  note ok = extracted_label_of [OF assms(4)]
  have ok': "map extract_severity (before @ item # after) =
               map Inr (map label_of (before @ item # after))"
    using ok unknown label by (simp add: extracted_iff)
  have total: "sum_list (map (weight_of ?wts) ?L') =
                 sum_list (map (weight_of ?wts) ?L) + weight_of ?wts ''unknown''"
    by (simp add: label)
  have cnt: "int (count_list ?L' ''unknown'') = int (count_list ?L ''unknown'') + 1"
    by (simp add: label)
  have "''unknown'' \<in> set ?L'"
    by (simp add: label)
  then have look: "map_of (fill_counts ?wts (counts_after ?L')) ''unknown'' =
                     Some (dict_get (fill_counts ?wts (counts_after ?L)) ''unknown'' 0 + 1)"
    by (simp only: map_of_fill_counts map_of_counts_after dict_get_severity_counts cnt) simp
  have ten: "weight_of ?wts ''unknown'' = 10"
    if "case severity_weights of None \<Rightarrow> True
        | Some overrides \<Rightarrow> ''unknown'' \<notin> set (dict_keys overrides)"
    using that by (rule unknown_weight_without_override)
  show "\<exists>v v'. aggregate_validator_results (before @ after) severity_weights = Inr v
          \<and> aggregate_validator_results (before @ item # after) severity_weights = Inr v'
          \<and> map_of (severity_counts v') ''unknown'' =
              Some (dict_get (severity_counts v) ''unknown'' 0 + 1)
          \<and> total_penalty (penalties v') =
              total_penalty (penalties v) + weight_of (effective_weights severity_weights) ''unknown''
          \<and> ((case severity_weights of
                 None \<Rightarrow> True
               | Some overrides \<Rightarrow> ''unknown'' \<notin> set (dict_keys overrides)) \<longrightarrow>
               weight_of (effective_weights severity_weights) ''unknown'' = 10
               \<and> total_penalty (penalties v') = total_penalty (penalties v) + 10
               \<and> hygiene_score v' = (if 10 \<le> hygiene_score v then hygiene_score v - 10 else 0))"
    using look total ten
    by (simp only: aggregate_run [OF ok] aggregate_run [OF ok']) (auto simp: max_def)
  show "\<forall>overrides w.
          severity_weights = Some overrides \<and> distinct (dict_keys overrides)
          \<and> map_of overrides ''unknown'' = Some w \<longrightarrow>
          weight_of (effective_weights severity_weights) ''unknown'' = w"
    using unknown_weight_with_override by blast
qed

text \<open>
  C10 as amended, at an item with no mapping items, no attributes and no text (a number,
  say), added to one \<^verbatim>\<open>high\<close> item; and with \<^verbatim>\<open>unknown\<close> overridden to 2.
\<close>

theorem unrecognized_item_charged_witness:
  "(case mapping_items plain_item of None \<Rightarrow> True | Some d \<Rightarrow> map_of d ''severity'' = None)
   \<and> hasattr plain_item ''severity'' = Inr False
   \<and> str_text plain_item = None
   \<and> map extract_severity ([str_item ''high''] @ []) = map Inr [''high'']
   \<and> extract_severity plain_item = Inr ''unknown''
   \<and> (\<exists>v v'. aggregate_validator_results [str_item ''high''] None = Inr v
          \<and> aggregate_validator_results [str_item ''high'', plain_item] None = Inr v'
          \<and> map_of (severity_counts v') ''unknown'' =
              Some (dict_get (severity_counts v) ''unknown'' 0 + 1)
          \<and> total_penalty (penalties v') = total_penalty (penalties v) + 10
          \<and> hygiene_score v' = (if 10 \<le> hygiene_score v then hygiene_score v - 10 else 0))
   \<and> distinct (dict_keys [(''unknown'', 2 :: int)])
   \<and> map_of [(''unknown'', 2 :: int)] ''unknown'' = Some 2
   \<and> weight_of (effective_weights (Some [(''unknown'', 2)])) ''unknown'' = 2"
proof -
  have h1: "case mapping_items plain_item of None \<Rightarrow> True | Some d \<Rightarrow> map_of d ''severity'' = None"
    and h2: "hasattr plain_item ''severity'' = Inr False"
    and h3: "str_text plain_item = None"
    by (simp_all add: plain_item_def hasattr_def getattr_def)
  have h4: "map extract_severity ([str_item ''high''] @ []) = map Inr [''high'']"
    and h5: "map extract_severity ([] @ []) = map Inr []"
    by (simp_all add: extract_eval)
  have d: "distinct (dict_keys [(''unknown'', 2 :: int)])"
    and m: "map_of [(''unknown'', 2 :: int)] ''unknown'' = Some 2"
    by (simp_all add: dict_keys_def)
  note at_none = unrecognized_item_charged [OF h1 h2 h3 h4, of None]
  have a: "extract_severity plain_item = Inr ''unknown''"
    using at_none by (rule conjunct1)
  have b: "\<exists>v v'. aggregate_validator_results [str_item ''high''] None = Inr v
          \<and> aggregate_validator_results [str_item ''high'', plain_item] None = Inr v'
          \<and> map_of (severity_counts v') ''unknown'' =
              Some (dict_get (severity_counts v) ''unknown'' 0 + 1)
          \<and> total_penalty (penalties v') = total_penalty (penalties v) + 10
          \<and> hygiene_score v' = (if 10 \<le> hygiene_score v then hygiene_score v - 10 else 0)"
    using at_none by (simp split del: if_split) blast
  have c: "weight_of (effective_weights (Some [(''unknown'', 2)])) ''unknown'' = 2"
    using d m unrecognized_item_charged [OF h1 h2 h3 h5, of "Some [(''unknown'', 2)]"]
    by blast
  show ?thesis
    using h1 h2 h3 h4 a b c d m by (intro conjI)
qed

text \<open>
  C10 as written says that every unrecognised item lowers the score by 10; after two
  \<^verbatim>\<open>critical\<close> items the score is 0 and stays 0 when an unrecognised item is added.
\<close>

theorem clamped_score_counterexample:
  "aggregate_validator_results [str_item ''critical'', str_item ''critical''] None =
     Inr \<lparr>hygiene_score = 0, rating = ''unsafe'',
          severity_counts =
            [(''critical'', 2), (''high'', 0), (''medium'', 0), (''low'', 0), (''info'', 0)],
          penalties =
            \<lparr>total_penalty = 100,
             by_severity =
               [(''critical'', 100), (''high'', 0), (''medium'', 0), (''low'', 0), (''info'', 0)],
             weights =
               [(''critical'', 50), (''high'', 25), (''medium'', 10), (''low'', 5), (''info'', 0)],
             unknown_weight = 10\<rparr>,
          max_score = 100\<rparr>
   \<and> aggregate_validator_results [str_item ''critical'', str_item ''critical'', plain_item] None =
     Inr \<lparr>hygiene_score = 0, rating = ''unsafe'',
          severity_counts =
            [(''critical'', 2), (''unknown'', 1), (''high'', 0), (''medium'', 0), (''low'', 0),
             (''info'', 0)],
          penalties =
            \<lparr>total_penalty = 110,
             by_severity =
               [(''critical'', 100), (''high'', 0), (''medium'', 0), (''low'', 0), (''info'', 0),
                (''unknown'', 10)],
             weights =
               [(''critical'', 50), (''high'', 25), (''medium'', 10), (''low'', 5), (''info'', 0)],
             unknown_weight = 10\<rparr>,
          max_score = 100\<rparr>
   \<and> (0 :: int) \<noteq> 0 - 10"
  by (simp add: aggregate_eval)

end
